theory Spec2Isabelle
  imports Complex_Main
begin

section \<open>ModelBootstrap: calibrated predictions with bootstrap confidence intervals\<close>

text \<open>
  A shallow embedding of the class \<open>ModelBootstrap\<close> of the notebook
  \<open>ModelBootstrap.ipynb\<close>: its constructor, \<open>fit\<close> and \<open>predict\<close>.

  Conventions of the embedding.
  \<^item> Probabilities and quantile levels are real numbers: the rounding of IEEE doubles is
    not modelled.
  \<^item> A feature matrix is the list of its rows, a label vector a list of integers.
  \<^item> A fitted \<open>CalibratedClassifierCV\<close> is the map from a feature row to the probability of
    the positive class, that is \<open>predict_proba(X)[:,1]\<close> computed row by row. Training
    (\<open>CalibratedClassifierCV(base_estimator, cv).fit(X, y)\<close>) belongs to scikit-learn and is a
    parameter \<open>train\<close> of \<open>fit\<close>; it may fail.
  \<^item> The global random generator behind \<open>np.random.choice\<close> is an explicit state \<open>'g\<close>, and
    the drawing of \<open>k\<close> indices below \<open>a\<close> is a parameter \<open>draw\<close>.
  \<^item> Every \<open>raise\<close> is a value \<open>Inl e\<close>; the object persists after an exception, so \<open>fit\<close>
    returns the state it reached together with the error, if any.
  \<^item> The conversion of a pandas frame by \<open>to_numpy\<close> does not change the matrix and is left
    out.
\<close>

subsection \<open>Values, errors and the estimator object\<close>

datatype pyval = PyInt int | PyBool bool | PyFloat real | PyStr string | PyNone

datatype error =
    Warning string
  | ValueError
  | IndexError
  | AttributeError
  | NotFittedError
  | TrainingError

type_synonym row = "real list"

type_synonym model = "row \<Rightarrow> real"

datatype calibrated = Unfitted_Calibrated | Fitted_Calibrated model

text \<open>
  The attributes of the object. \<open>calibration_cv\<close>, \<open>calibrated_estimator\<close> and \<open>boot_size\<close>
  do not exist before the first \<open>fit\<close>: they are \<open>None\<close> until then. The calibrated
  estimator is assigned before its own \<open>fit\<close> is called, so it can be present and unfitted.
\<close>

record ('e, 'cv) ModelBootstrap =
  estimator :: 'e
  n_boot :: int
  b_estimators :: "model list"
  calibration_cv :: "'cv option"
  calibrated_estimator :: "calibrated option"
  boot_size :: "int option"

definition n_boot_msg :: string where
  "n_boot_msg = ''n_boot must be an integer larger than 0''"

definition not_fitted_msg :: string where
  "not_fitted_msg = ''Use fit method first''"

definition ci_msg :: string where
  "ci_msg = ''ci must be an integer between 0 and 100 exclusive''"

text \<open>\<open>__init__(self, estimator, n_boot)\<close>; \<open>type(n_boot) != int\<close> is true of a bool as well.\<close>

definition init :: "'e \<Rightarrow> pyval \<Rightarrow> error + ('e, 'cv) ModelBootstrap" where
  "init est nb =
     (case nb of
        PyInt n \<Rightarrow>
          if n < 0 then Inl (Warning n_boot_msg)
          else Inr \<lparr>estimator = est, n_boot = n, b_estimators = [],
                    calibration_cv = None, calibrated_estimator = None, boot_size = None\<rparr>
      | _ \<Rightarrow> Inl (Warning n_boot_msg))"

subsection \<open>Resampling\<close>

text \<open>
  \<open>np.random.choice(a, size = size)\<close> for an integer population \<open>a\<close>, with the defaults
  \<open>replace = True\<close> and \<open>p = None\<close>: it raises for a negative size and for an empty
  population unless no sample is taken; otherwise the generator draws.
\<close>

definition np_random_choice ::
  "('g \<Rightarrow> nat \<Rightarrow> nat \<Rightarrow> nat list \<times> 'g) \<Rightarrow> 'g \<Rightarrow> nat \<Rightarrow> int \<Rightarrow> error + (nat list \<times> 'g)" where
  "np_random_choice draw g a sz =
     (if sz < 0 then Inl ValueError
      else if a = 0 \<and> sz \<noteq> 0 then Inl ValueError
      else Inr (draw g a (nat sz)))"

text \<open>\<open>X[b_idx]\<close> for an array of indices: an index out of range raises.\<close>

definition take_rows :: "'a list \<Rightarrow> nat list \<Rightarrow> error + 'a list" where
  "take_rows xs b_idx =
     (if list_all (\<lambda>i. i < length xs) b_idx then Inr (map (\<lambda>i. xs ! i) b_idx)
      else Inl IndexError)"

text \<open>The three lines that build one bootstrap sample in the loop of \<open>fit\<close>.\<close>

definition resample ::
  "('g \<Rightarrow> nat \<Rightarrow> nat \<Rightarrow> nat list \<times> 'g) \<Rightarrow> 'g \<Rightarrow> row list \<Rightarrow> int list \<Rightarrow> int
     \<Rightarrow> error + (row list \<times> int list \<times> 'g)" where
  "resample draw g X y sz =
     (case np_random_choice draw g (length X) sz of
        Inl e \<Rightarrow> Inl e
      | Inr (b_idx, g') \<Rightarrow>
          (case take_rows X b_idx of
             Inl e \<Rightarrow> Inl e
           | Inr X_resampled \<Rightarrow>
               (case take_rows y b_idx of
                  Inl e \<Rightarrow> Inl e
                | Inr y_resampled \<Rightarrow> Inr (X_resampled, y_resampled, g'))))"

subsection \<open>fit\<close>

text \<open>
  The loop \<open>for j in trange(self.n_boot)\<close>, counting the iterations that remain. It reads
  \<open>self.boot_size\<close>, \<open>self.estimator\<close> and \<open>self.calibration_cv\<close> in every iteration.
\<close>

fun boot_loop ::
  "('e \<Rightarrow> 'cv \<Rightarrow> row list \<Rightarrow> int list \<Rightarrow> error + model)
     \<Rightarrow> ('g \<Rightarrow> nat \<Rightarrow> nat \<Rightarrow> nat list \<times> 'g) \<Rightarrow> row list \<Rightarrow> int list
     \<Rightarrow> nat \<Rightarrow> ('e, 'cv) ModelBootstrap \<Rightarrow> 'g
     \<Rightarrow> error option \<times> ('e, 'cv) ModelBootstrap \<times> 'g" where
  "boot_loop train draw X y 0 self g = (None, self, g)"
| "boot_loop train draw X y (Suc j) self g =
     (case boot_size self of
        None \<Rightarrow> (Some AttributeError, self, g)
      | Some sz \<Rightarrow>
          (case resample draw g X y sz of
             Inl e \<Rightarrow> (Some e, self, g)
           | Inr (X_resampled, y_resampled, g') \<Rightarrow>
               (case calibration_cv self of
                  None \<Rightarrow> (Some AttributeError, self, g')
                | Some cv \<Rightarrow>
                    (case train (estimator self) cv X_resampled y_resampled of
                       Inl e \<Rightarrow> (Some e, self, g')
                     | Inr partial_estimator \<Rightarrow>
                         boot_loop train draw X y j
                           (self\<lparr>b_estimators := b_estimators self @ [partial_estimator]\<rparr>)
                           g'))))"

definition fit ::
  "('e \<Rightarrow> 'cv \<Rightarrow> row list \<Rightarrow> int list \<Rightarrow> error + model)
     \<Rightarrow> ('g \<Rightarrow> nat \<Rightarrow> nat \<Rightarrow> nat list \<times> 'g)
     \<Rightarrow> ('e, 'cv) ModelBootstrap \<Rightarrow> row list \<Rightarrow> int list \<Rightarrow> 'cv \<Rightarrow> int option \<Rightarrow> 'g
     \<Rightarrow> error option \<times> ('e, 'cv) ModelBootstrap \<times> 'g" where
  "fit train draw self X y cv bsize g =
     (let self1 = self\<lparr>calibration_cv := Some cv,
                       calibrated_estimator := Some Unfitted_Calibrated\<rparr>
      in case train (estimator self1) cv X y of
           Inl e \<Rightarrow> (Some e, self1, g)
         | Inr m \<Rightarrow>
             (let self2 = self1\<lparr>calibrated_estimator := Some (Fitted_Calibrated m)\<rparr>;
                  self3 = self2\<lparr>boot_size :=
                             Some (case bsize of None \<Rightarrow> int (length X) | Some k \<Rightarrow> k)\<rparr>;
                  self4 = self3\<lparr>b_estimators := []\<rparr>
              in boot_loop train draw X y (nat (n_boot self4)) self4 g))"

subsection \<open>predict\<close>

text \<open>
  \<open>np.quantile(a, q)\<close> on one column. The function belongs to numpy and is not part of
  the repository; \<open>predict\<close> calls it with its default method, linear interpolation: on the
  sorted values, the virtual index \<open>q * (N - 1)\<close>, the order statistic below it, the next
  one (clipped to the last), and the linear interpolation between the two.
\<close>

definition quantile_linear :: "real list \<Rightarrow> real \<Rightarrow> real" where
  "quantile_linear a q =
     (let ap = sort a;
          Nx = length ap;
          indices = q * real (Nx - 1);
          indices_below = nat \<lfloor>indices\<rfloor>;
          indices_above = min (indices_below + 1) (Nx - 1);
          weights_above = indices - real indices_below
      in ap ! indices_below + (ap ! indices_above - ap ! indices_below) * weights_above)"

text \<open>
  \<open>np.quantile(a, q, axis = 0)\<close> on a matrix with \<open>S\<close> columns given as the list of its
  rows. A level outside \<open>[0, 1]\<close> raises. \<open>predict\<close> never reaches it with a matrix of no
  rows; the model makes that case an error.
\<close>

definition np_quantile_axis0 :: "nat \<Rightarrow> real list list \<Rightarrow> real \<Rightarrow> error + real list" where
  "np_quantile_axis0 S a q =
     (if q < 0 \<or> 1 < q then Inl ValueError
      else if a = [] then Inl IndexError
      else Inr (map (\<lambda>i. quantile_linear (map (\<lambda>r. r ! i) a) q) [0..<S]))"

text \<open>
  The loop \<open>for j, est in enumerate(self.b_estimators): preds[j] = est.predict_proba(X)[:,1]\<close>;
  a row index beyond the matrix raises.
\<close>

fun fill_preds :: "real list list \<Rightarrow> nat \<Rightarrow> model list \<Rightarrow> row list \<Rightarrow> error + real list list" where
  "fill_preds preds j [] X = Inr preds"
| "fill_preds preds j (est # ests) X =
     (if j < length preds then fill_preds (preds[j := map est X]) (Suc j) ests X
      else Inl IndexError)"

definition predict_result ::
  "('e, 'cv) ModelBootstrap \<Rightarrow> row list \<Rightarrow> pyval
     \<Rightarrow> error + (real list \<times> real list \<times> real list)" where
  "predict_result self X ci =
     (if b_estimators self = [] then Inl (Warning not_fitted_msg)
      else
        (case ci of
           PyInt c \<Rightarrow>
             if c \<le> 0 \<or> c \<ge> 100 then Inl (Warning ci_msg)
             else
               (let ci' = (1 - real_of_int c / 100) / 2
                in if n_boot self < 0 then Inl ValueError
                   else
                     (let preds = replicate (nat (n_boot self)) (replicate (length X) 0)
                      in case calibrated_estimator self of
                           None \<Rightarrow> Inl AttributeError
                         | Some Unfitted_Calibrated \<Rightarrow> Inl NotFittedError
                         | Some (Fitted_Calibrated m) \<Rightarrow>
                             (let y_pred = map m X
                              in case fill_preds preds 0 (b_estimators self) X of
                                   Inl e \<Rightarrow> Inl e
                                 | Inr preds' \<Rightarrow>
                                     (case np_quantile_axis0 (length X) preds' ci' of
                                        Inl e \<Rightarrow> Inl e
                                      | Inr lower_bounds \<Rightarrow>
                                          (case np_quantile_axis0 (length X) preds' (1 - ci') of
                                             Inl e \<Rightarrow> Inl e
                                           | Inr upper_bounds \<Rightarrow>
                                               Inr (y_pred, lower_bounds, upper_bounds))))))
         | _ \<Rightarrow> Inl (Warning ci_msg)))"

text \<open>
  \<open>predict\<close> as a method: the result, and the object after the call. The body assigns no
  attribute of \<open>self\<close> (\<open>X\<close> and \<open>ci\<close> are rebound as locals only).
\<close>

definition predict ::
  "('e, 'cv) ModelBootstrap \<Rightarrow> row list \<Rightarrow> pyval
     \<Rightarrow> (error + (real list \<times> real list \<times> real list)) \<times> ('e, 'cv) ModelBootstrap" where
  "predict self X ci = (predict_result self X ci, self)"

subsection \<open>The distribution of the index draw\<close>

text \<open>
  Modelled from the spec: \<open>np.random.choice\<close> belongs to numpy and is not part of the
  repository. The specification has the indices drawn independently and uniformly at
  random from \<open>[0, R)\<close>, with replacement; numpy's function takes two further arguments,
  \<open>replace\<close> and \<open>p\<close>, which the call in \<open>fit\<close> leaves at their defaults \<open>True\<close> and \<open>None\<close>.
  The probability that the indices \<open>idx\<close> are drawn one after the other: each index is
  drawn among the indices still available, with a probability proportional to its weight;
  with replacement every index stays available.
\<close>

fun choice_prob_seq :: "bool \<Rightarrow> (nat \<Rightarrow> real) \<Rightarrow> nat list \<Rightarrow> nat list \<Rightarrow> real" where
  "choice_prob_seq replace w avail [] = 1"
| "choice_prob_seq replace w avail (i # idx) =
     (if i \<in> set avail
      then w i / sum_list (map w avail)
           * choice_prob_seq replace w (if replace then avail else remove1 i avail) idx
      else 0)"

text \<open>
  Modelled from the spec: the probability that \<open>np.random.choice(a, size = k, replace, p)\<close>
  returns the index vector \<open>idx\<close>; the weights are uniform when \<open>p\<close> is \<open>None\<close>.
\<close>

definition np_choice_pmf :: "nat \<Rightarrow> nat \<Rightarrow> bool \<Rightarrow> real list option \<Rightarrow> nat list \<Rightarrow> real" where
  "np_choice_pmf a k replace p idx =
     (if length idx = k
      then choice_prob_seq replace (case p of None \<Rightarrow> (\<lambda>i. 1) | Some ps \<Rightarrow> (\<lambda>i. ps ! i)) [0..<a] idx
      else 0)"

text \<open>
  A generator honours that distribution, for the arguments of the call in \<open>fit\<close>, when
  every index vector it returns is one that the call returns with positive probability.
\<close>

definition draws_possible :: "('g \<Rightarrow> nat \<Rightarrow> nat \<Rightarrow> nat list \<times> 'g) \<Rightarrow> bool" where
  "draws_possible draw =
     (\<forall>g a k. 0 < a \<longrightarrow> 0 < np_choice_pmf a k True None (fst (draw g a k)))"

text \<open>
  The bootstrap samples that the loop of \<open>fit\<close> builds, in order, from the generator state
  \<open>g\<close> and over \<open>j\<close> iterations, as long as the resampling returns.
\<close>

fun boot_samples ::
  "('g \<Rightarrow> nat \<Rightarrow> nat \<Rightarrow> nat list \<times> 'g) \<Rightarrow> row list \<Rightarrow> int list \<Rightarrow> int \<Rightarrow> nat \<Rightarrow> 'g
     \<Rightarrow> (row list \<times> int list) list" where
  "boot_samples draw X y sz 0 g = []"
| "boot_samples draw X y sz (Suc j) g =
     (case resample draw g X y sz of
        Inl e \<Rightarrow> []
      | Inr (X_resampled, y_resampled, g') \<Rightarrow>
          (X_resampled, y_resampled) # boot_samples draw X y sz j g')"

subsection \<open>Notions used by the properties\<close>

text \<open>
  The interpolation of \<open>quantile_linear\<close> on an already sorted list, at the virtual index
  \<open>h\<close>.
\<close>

definition interp_at :: "real list \<Rightarrow> real \<Rightarrow> real" where
  "interp_at xs h =
     xs ! nat \<lfloor>h\<rfloor>
       + (xs ! min (nat \<lfloor>h\<rfloor> + 1) (length xs - 1) - xs ! nat \<lfloor>h\<rfloor>) * (h - real (nat \<lfloor>h\<rfloor>))"

text \<open>
  The quantile as the specification words it: on the sorted values, the fractional rank
  \<open>q * (n - 1)\<close>, the values at its floor and at its ceiling, weighted by the fractional
  part of the rank.
\<close>

definition interpolated_quantile :: "real list \<Rightarrow> real \<Rightarrow> real" where
  "interpolated_quantile vs q =
     (let sorted_vs = sort vs;
          rank = q * real (length sorted_vs - 1);
          lo = nat \<lfloor>rank\<rfloor>;
          hi = nat \<lceil>rank\<rceil>
      in sorted_vs ! lo + (rank - real lo) * (sorted_vs ! hi - sorted_vs ! lo))"

text \<open>The confidence levels that \<open>predict\<close> accepts: an \<open>int\<close> strictly between 0 and 100.\<close>

definition valid_ci :: "pyval \<Rightarrow> bool" where
  "valid_ci ci = (case ci of PyInt c \<Rightarrow> 0 < c \<and> c < 100 | _ \<Rightarrow> False)"

subsection \<open>A concrete classifier, generator and dataset\<close>

text \<open>
  A classifier that ignores the features and predicts the share of positive labels of its
  training set (it cannot be trained on no rows); a generator whose state is a counter and
  whose \<open>k\<close> draws are all the counter reduced below the population; the object that
  \<open>ModelBootstrap(estimator, n_boot = n)\<close> builds; and the objects that \<open>fit\<close> leaves.
\<close>

definition prior_train :: "unit \<Rightarrow> unit \<Rightarrow> row list \<Rightarrow> int list \<Rightarrow> error + model" where
  "prior_train est cv X y =
     (if y = [] then Inl TrainingError
      else Inr (\<lambda>r. real_of_int (sum_list y) / real (length y)))"

definition const_draw :: "nat \<Rightarrow> nat \<Rightarrow> nat \<Rightarrow> nat list \<times> nat" where
  "const_draw g a k = (replicate k (g mod a), Suc g)"

definition unfitted :: "int \<Rightarrow> (unit, unit) ModelBootstrap" where
  "unfitted n = \<lparr>estimator = (), n_boot = n, b_estimators = [], calibration_cv = None,
                  calibrated_estimator = None, boot_size = None\<rparr>"

definition example_X :: "row list" where
  "example_X = [[0], [1], [2]]"

definition example_y :: "int list" where
  "example_y = [0, 0, 1]"

definition fitted_example :: "(unit, unit) ModelBootstrap" where
  "fitted_example =
     fst (snd (fit prior_train const_draw (unfitted 3) example_X example_y () None (0::nat)))"

definition empty_example :: "(unit, unit) ModelBootstrap" where
  "empty_example =
     fst (snd (fit prior_train const_draw (unfitted 0) example_X example_y () None (0::nat)))"

definition skewed_example :: "(unit, unit) ModelBootstrap" where
  "skewed_example =
     fst (snd (fit prior_train const_draw (unfitted 1) [[0], [1]] [0, 1] () None (1::nat)))"

definition single_row_example :: "(unit, unit) ModelBootstrap" where
  "single_row_example =
     fst (snd (fit prior_train const_draw (unfitted 0) [[0]] [1] () None (0::nat)))"

section \<open>Auxiliary facts\<close>

subsection \<open>Evaluation on numerals\<close>

lemmas boot_loop_numeral =
  boot_loop.simps(2)[of _ _ _ _ "pred_numeral k", folded numeral_eq_Suc] for k

lemma replicate_numeral: "replicate (numeral k) x = x # replicate (pred_numeral k) x"
  by (simp add: numeral_eq_Suc)

lemmas example_defs = unfitted_def example_X_def example_y_def prior_train_def const_draw_def
  resample_def np_random_choice_def take_rows_def

lemma example_fit_full:
  "fit prior_train const_draw (unfitted 3) example_X example_y () None (0::nat)
     = (None,
        \<lparr>estimator = (), n_boot = 3, b_estimators = [\<lambda>r. 0, \<lambda>r. 0, \<lambda>r. 1],
           calibration_cv = Some (),
           calibrated_estimator = Some (Fitted_Calibrated (\<lambda>r. 1 / 3)),
           boot_size = Some 3\<rparr>,
        3)"
  by (simp add: fit_def Let_def example_defs boot_loop_numeral replicate_numeral)

lemma example_fit:
  "fit prior_train const_draw (unfitted 3) example_X example_y () None (0::nat)
     = (None, fitted_example, 3)"
  unfolding fitted_example_def by (simp add: example_fit_full)

lemma example_n_boot: "1 \<le> n_boot (unfitted 3)"
  by (simp add: unfitted_def)

subsection \<open>The interpolated quantile\<close>

lemma quantile_linear_interp:
  "quantile_linear a q = interp_at (sort a) (q * real (length a - 1))"
  by (simp add: quantile_linear_def interp_at_def Let_def)

lemma floor_index_bounds:
  assumes "0 \<le> h" "h \<le> real (n - 1)" "0 < n"
  shows "nat \<lfloor>h\<rfloor> \<le> n - 1" "real (nat \<lfloor>h\<rfloor>) \<le> h" "h - real (nat \<lfloor>h\<rfloor>) < 1"
proof -
  have f0: "0 \<le> \<lfloor>h\<rfloor>" using assms(1) by simp
  have "\<lfloor>h\<rfloor> \<le> int (n - 1)" using assms(2) by (simp add: floor_le_iff) 
  then show "nat \<lfloor>h\<rfloor> \<le> n - 1" using f0 by linarith
  have "real (nat \<lfloor>h\<rfloor>) = of_int \<lfloor>h\<rfloor>" using f0 by simp
  then show "real (nat \<lfloor>h\<rfloor>) \<le> h" "h - real (nat \<lfloor>h\<rfloor>) < 1" by linarith+
qed

lemma interp_at_between:
  assumes s: "sorted xs" and ne: "xs \<noteq> []" and h0: "0 \<le> h" and h1: "h \<le> real (length xs - 1)"
  shows "xs ! nat \<lfloor>h\<rfloor> \<le> interp_at xs h"
    and "interp_at xs h \<le> xs ! min (nat \<lfloor>h\<rfloor> + 1) (length xs - 1)"
proof -
  let ?lo = "nat \<lfloor>h\<rfloor>" and ?n = "length xs"
  let ?hi = "min (?lo + 1) (?n - 1)"
  let ?w = "h - real ?lo"
  have n: "0 < ?n" using ne by simp
  have lo: "?lo \<le> ?n - 1" and w0: "0 \<le> ?w" and w1: "?w < 1"
    using floor_index_bounds[OF h0 h1 n] by simp_all
  have hi: "?hi < ?n" using n by arith
  have "?lo \<le> ?hi" using lo by simp
  then have d: "xs ! ?lo \<le> xs ! ?hi" using s hi by (simp add: sorted_nth_mono)
  then have d0: "0 \<le> xs ! ?hi - xs ! ?lo" by simp
  have "0 \<le> (xs ! ?hi - xs ! ?lo) * ?w" using d0 w0 by simp
  then show "xs ! ?lo \<le> interp_at xs h" by (simp add: interp_at_def)
  have "(xs ! ?hi - xs ! ?lo) * ?w \<le> (xs ! ?hi - xs ! ?lo) * 1"
    using d0 w1 by (intro mult_left_mono) simp_all
  then show "interp_at xs h \<le> xs ! ?hi" by (simp add: interp_at_def)
qed

lemma interp_at_mono:
  assumes s: "sorted xs" and ne: "xs \<noteq> []" and h0: "0 \<le> h" and hh: "h \<le> h'"
    and h1: "h' \<le> real (length xs - 1)"
  shows "interp_at xs h \<le> interp_at xs h'"
proof -
  let ?lo = "nat \<lfloor>h\<rfloor>" and ?lo' = "nat \<lfloor>h'\<rfloor>" and ?n = "length xs"
  have n: "0 < ?n" using ne by simp
  have h0': "0 \<le> h'" and h1': "h \<le> real (?n - 1)" using h0 hh h1 by linarith+
  have lo': "?lo' \<le> ?n - 1" using floor_index_bounds(1)[OF h0' h1 n] .
  have lolo: "?lo \<le> ?lo'" using hh by (simp add: floor_mono nat_mono)
  show ?thesis
  proof (cases "?lo = ?lo'")
    case True
    let ?hi = "min (?lo + 1) (?n - 1)"
    have hi: "?hi < ?n" using n by arith
    have "?lo \<le> ?hi" using floor_index_bounds(1)[OF h0 h1' n] by simp
    then have d0: "0 \<le> xs ! ?hi - xs ! ?lo" using s hi by (simp add: sorted_nth_mono)
    have "(xs ! ?hi - xs ! ?lo) * (h - real ?lo) \<le> (xs ! ?hi - xs ! ?lo) * (h' - real ?lo)"
      using d0 hh by (intro mult_left_mono) simp_all
    then show ?thesis using True by (simp add: interp_at_def)
  next
    case False
    then have lt: "?lo + 1 \<le> ?lo'" using lolo by simp
    then have "min (?lo + 1) (?n - 1) \<le> ?lo'" by simp
    moreover have "?lo' < ?n" using lo' n by linarith
    ultimately have "xs ! min (?lo + 1) (?n - 1) \<le> xs ! ?lo'"
      using s by (simp add: sorted_nth_mono)
    moreover note interp_at_between(2)[OF s ne h0 h1'] interp_at_between(1)[OF s ne h0' h1]
    ultimately show ?thesis by linarith
  qed
qed

lemma quantile_linear_mono:
  assumes "a \<noteq> []" "0 \<le> q" "q \<le> q'" "q' \<le> 1"
  shows "quantile_linear a q \<le> quantile_linear a q'"
proof -
  have ne: "sort a \<noteq> []" using assms(1) by (metis length_sort length_0_conv)
  have "q * real (length a - 1) \<le> q' * real (length a - 1)"
    using assms(3) by (intro mult_right_mono) simp_all
  moreover have "q' * real (length a - 1) \<le> real (length (sort a) - 1)"
    using mult_right_mono[OF assms(4), of "real (length a - 1)"] by simp
  moreover have "0 \<le> q * real (length a - 1)" using assms(2) by simp
  ultimately show ?thesis
    unfolding quantile_linear_interp
    using interp_at_mono[OF sorted_sort ne] by blast
qed

lemma quantile_linear_range:
  assumes ne: "a \<noteq> []" and q: "0 \<le> q" "q \<le> 1" and b: "\<forall>x\<in>set a. l \<le> x \<and> x \<le> u"
  shows "l \<le> quantile_linear a q \<and> quantile_linear a q \<le> u"
proof -
  let ?xs = "sort a" and ?h = "q * real (length a - 1)"
  have ne': "?xs \<noteq> []" using ne by (metis length_sort length_0_conv)
  have n: "0 < length ?xs" using ne by simp
  have h0: "0 \<le> ?h" using q by simp
  have h1: "?h \<le> real (length ?xs - 1)"
    using mult_right_mono[OF q(2), of "real (length a - 1)"] by simp
  have lo: "nat \<lfloor>?h\<rfloor> < length ?xs" using floor_index_bounds(1)[OF h0 h1 n] n by linarith
  have hi: "min (nat \<lfloor>?h\<rfloor> + 1) (length ?xs - 1) < length ?xs" using n by arith
  have "?xs ! nat \<lfloor>?h\<rfloor> \<in> set a" using lo by (metis nth_mem set_sort)
  moreover have "?xs ! min (nat \<lfloor>?h\<rfloor> + 1) (length ?xs - 1) \<in> set a"
    using hi by (metis nth_mem set_sort)
  moreover note interp_at_between[OF sorted_sort ne' h0 h1, of]
  ultimately show ?thesis using b unfolding quantile_linear_interp by force
qed

lemma interp_at_ceiling:
  assumes ne: "xs \<noteq> []" and h0: "0 \<le> h" and h1: "h \<le> real (length xs - 1)"
  shows "interp_at xs h = xs ! nat \<lfloor>h\<rfloor> + (h - real (nat \<lfloor>h\<rfloor>)) * (xs ! nat \<lceil>h\<rceil> - xs ! nat \<lfloor>h\<rfloor>)"
proof -
  let ?n = "length xs"
  have n: "0 < ?n" using ne by simp
  have lo: "nat \<lfloor>h\<rfloor> \<le> ?n - 1" and lo_le: "real (nat \<lfloor>h\<rfloor>) \<le> h"
    using floor_index_bounds[OF h0 h1 n] by simp_all
  have f0: "0 \<le> \<lfloor>h\<rfloor>" using h0 by simp
  show ?thesis
  proof (cases "h = of_int \<lfloor>h\<rfloor>")
    case True
    then have "real (nat \<lfloor>h\<rfloor>) = h" using f0 by simp
    then show ?thesis by (simp add: interp_at_def)
  next
    case False
    then have c: "\<lceil>h\<rceil> = \<lfloor>h\<rfloor> + 1" by (simp add: ceiling_altdef)
    have "nat (\<lfloor>h\<rfloor> + 1) = nat \<lfloor>h\<rfloor> + 1" using f0 by linarith
    then have nc: "nat \<lceil>h\<rceil> = nat \<lfloor>h\<rfloor> + 1" by (simp only: c)
    have "nat \<lfloor>h\<rfloor> \<noteq> ?n - 1"
    proof
      assume e: "nat \<lfloor>h\<rfloor> = ?n - 1"
      then have "h = real (?n - 1)" using lo_le h1 by simp
      then have "h = of_int \<lfloor>h\<rfloor>" by (metis floor_of_nat of_int_of_nat_eq)
      then show False using False by simp
    qed
    then have "nat \<lfloor>h\<rfloor> + 1 \<le> ?n - 1" using lo by linarith
    then have "min (nat \<lfloor>h\<rfloor> + 1) (?n - 1) = nat \<lceil>h\<rceil>" using nc by linarith
    then show ?thesis unfolding interp_at_def by (simp only: mult.commute)
  qed
qed

lemma quantile_linear_spec:
  assumes "a \<noteq> []" "0 \<le> q" "q \<le> 1"
  shows "quantile_linear a q = interpolated_quantile a q"
proof -
  have ne: "sort a \<noteq> []" using assms(1) by (metis length_sort length_0_conv)
  have h0: "0 \<le> q * real (length a - 1)" using assms(2) by simp
  have h1: "q * real (length a - 1) \<le> real (length (sort a) - 1)"
    using mult_right_mono[OF assms(3), of "real (length a - 1)"] by simp
  have "interpolated_quantile a q =
          sort a ! nat \<lfloor>q * real (length a - 1)\<rfloor>
            + (q * real (length a - 1) - real (nat \<lfloor>q * real (length a - 1)\<rfloor>))
              * (sort a ! nat \<lceil>q * real (length a - 1)\<rceil> - sort a ! nat \<lfloor>q * real (length a - 1)\<rfloor>)"
    by (simp add: interpolated_quantile_def Let_def)
  then show ?thesis
    unfolding quantile_linear_interp interp_at_ceiling[OF ne h0 h1] by simp
qed

subsection \<open>The matrix of member predictions\<close>

lemma fill_preds_ok:
  "j + length ests \<le> length preds \<Longrightarrow>
   fill_preds preds j ests X =
     Inr (take j preds @ map (\<lambda>est. map est X) ests @ drop (j + length ests) preds)"
proof (induction ests arbitrary: preds j)
  case Nil
  then show ?case by simp
next
  case (Cons est ests)
  have j: "j < length preds" using Cons.prems by simp
  have "fill_preds (preds[j := map est X]) (Suc j) ests X =
        Inr (take (Suc j) (preds[j := map est X]) @ map (\<lambda>est. map est X) ests
             @ drop (Suc j + length ests) (preds[j := map est X]))"
    using Cons.prems by (intro Cons.IH) simp
  moreover have "take (Suc j) (preds[j := map est X]) = take j preds @ [map est X]"
    using j by (simp add: take_Suc_conv_app_nth)
  ultimately show ?case using j by simp
qed


lemma fill_preds_exact:
  "length ests = n \<Longrightarrow>
   fill_preds (replicate n z) 0 ests X = Inr (map (\<lambda>est. map est X) ests)"
  using fill_preds_ok[of 0 ests "replicate n z" X] by simp

lemma columns_of_preds:
  "map (\<lambda>i. f (map (\<lambda>r. r ! i) (map (\<lambda>est. map est X) ests))) [0..<length X] =
   map (\<lambda>x. f (map (\<lambda>est. est x) ests)) X"
  by (rule nth_equalityI) (simp_all add: comp_def cong: map_cong)

lemma predict_result_fitted:
  assumes ne: "b_estimators self \<noteq> []"
    and len: "int (length (b_estimators self)) = n_boot self"
    and pm: "calibrated_estimator self = Some (Fitted_Calibrated m)"
    and c: "0 < c" "c < 100"
  shows "predict_result self X (PyInt c) =
           Inr (map m X,
                map (\<lambda>x. quantile_linear (map (\<lambda>est. est x) (b_estimators self))
                            ((1 - real_of_int c / 100) / 2)) X,
                map (\<lambda>x. quantile_linear (map (\<lambda>est. est x) (b_estimators self))
                            (1 - (1 - real_of_int c / 100) / 2)) X)"
proof -
  let ?q = "(1 - real_of_int c / 100) / 2"
  let ?P = "map (\<lambda>est. map est X) (b_estimators self)"
  have nb: "nat (n_boot self) = length (b_estimators self)" using len by simp
  have fill: "fill_preds (replicate (nat (n_boot self)) (replicate (length X) 0)) 0
                (b_estimators self) X = Inr ?P"
    using fill_preds_exact[of "b_estimators self" "nat (n_boot self)"] nb by simp
  have q: "0 \<le> ?q" "?q \<le> 1" "0 \<le> 1 - ?q" "1 - ?q \<le> 1" using c by simp_all
  have Pne: "?P \<noteq> []" using ne by simp
  have ql: "np_quantile_axis0 (length X) ?P ?q =
              Inr (map (\<lambda>x. quantile_linear (map (\<lambda>est. est x) (b_estimators self)) ?q) X)"
    using q Pne columns_of_preds[of "\<lambda>a. quantile_linear a ?q" X "b_estimators self"]
    by (simp add: np_quantile_axis0_def)
  have qu: "np_quantile_axis0 (length X) ?P (1 - ?q) =
              Inr (map (\<lambda>x. quantile_linear (map (\<lambda>est. est x) (b_estimators self)) (1 - ?q)) X)"
    using q Pne columns_of_preds[of "\<lambda>a. quantile_linear a (1 - ?q)" X "b_estimators self"]
    by (simp add: np_quantile_axis0_def)
  have n0: "\<not> n_boot self < 0" using len by linarith
  show ?thesis
    unfolding predict_result_def Let_def
    using ne c n0 pm fill ql qu by simp
qed

subsection \<open>The checks of predict\<close>

lemma msgs_distinct: "not_fitted_msg \<noteq> ci_msg"
  by (simp add: not_fitted_msg_def ci_msg_def)

lemma fill_preds_error: "fill_preds preds j ests X = Inl e \<Longrightarrow> e = IndexError"
  by (induction ests arbitrary: preds j) (auto split: if_splits)

lemma np_quantile_axis0_error: "np_quantile_axis0 S a q = Inl e \<Longrightarrow> e \<noteq> Warning msg"
  by (auto simp: np_quantile_axis0_def split: if_splits)

lemma predict_result_unfitted:
  "b_estimators self = [] \<Longrightarrow> predict_result self X ci = Inl (Warning not_fitted_msg)"
  by (simp add: predict_result_def)

lemma predict_result_invalid_ci:
  "b_estimators self \<noteq> [] \<Longrightarrow> \<not> valid_ci ci \<Longrightarrow> predict_result self X ci = Inl (Warning ci_msg)"
  by (cases ci) (auto simp: predict_result_def valid_ci_def)

lemma predict_result_valid_no_warning:
  assumes "b_estimators self \<noteq> []" "valid_ci ci"
  shows "predict_result self X ci \<noteq> Inl (Warning msg)"
proof -
  from assms(2) obtain c where c: "ci = PyInt c" "0 < c" "c < 100"
    by (cases ci) (auto simp: valid_ci_def)
  show ?thesis
    using assms(1) c
    by (auto simp: predict_result_def Let_def
        split: option.splits calibrated.splits sum.splits
        dest: fill_preds_error np_quantile_axis0_error)
qed

subsection \<open>The state after fit\<close>

lemma boot_loop_success:
  "boot_loop train draw X y j self g = (None, s', g') \<Longrightarrow>
   (\<exists>ms. length ms = j \<and> s' = self\<lparr>b_estimators := b_estimators self @ ms\<rparr>)"
proof (induction j arbitrary: self g)
  case 0
  then show ?case by simp
next
  case (Suc j)
  from Suc.prems obtain sz Xr yr g1 cv m where
    step: "boot_loop train draw X y j (self\<lparr>b_estimators := b_estimators self @ [m]\<rparr>) g1
             = (None, s', g')"
    by (auto split: option.splits sum.splits prod.splits)
  from Suc.IH[OF step] obtain ms where
    ms: "length ms = j" "s' = self\<lparr>b_estimators := b_estimators self @ [m] @ ms\<rparr>"
    by auto
  show ?case
    by (rule exI[of _ "m # ms"]) (simp add: ms)
qed

lemma fit_success:
  assumes "fit train draw self X y cv bsize g = (None, s', g')"
  shows "\<exists>m ms. train (estimator self) cv X y = Inr m \<and> length ms = nat (n_boot self) \<and>
           s' = self\<lparr>b_estimators := ms, calibration_cv := Some cv,
                     calibrated_estimator := Some (Fitted_Calibrated m),
                     boot_size := Some (case bsize of None \<Rightarrow> int (length X) | Some k \<Rightarrow> k)\<rparr>"
proof -
  from assms obtain m where m: "train (estimator self) cv X y = Inr m"
    by (auto simp: fit_def Let_def split: sum.splits)
  let ?s4 = "self\<lparr>calibration_cv := Some cv,
                   calibrated_estimator := Some (Fitted_Calibrated m),
                   boot_size := Some (case bsize of None \<Rightarrow> int (length X) | Some k \<Rightarrow> k),
                   b_estimators := []\<rparr>"
  have "boot_loop train draw X y (nat (n_boot self)) ?s4 g = (None, s', g')"
    using assms m by (simp add: fit_def Let_def)
  from boot_loop_success[OF this] obtain ms where
    "length ms = nat (n_boot self)" "s' = ?s4\<lparr>b_estimators := b_estimators ?s4 @ ms\<rparr>"
    by blast
  then show ?thesis using m by auto
qed

lemma fit_fitted_state:
  assumes f: "fit train draw self0 Xt y cv bsize g = (None, self, g')" and n: "1 \<le> n_boot self0"
  shows "b_estimators self \<noteq> []" "int (length (b_estimators self)) = n_boot self"
    "\<exists>m. calibrated_estimator self = Some (Fitted_Calibrated m)"
proof -
  from fit_success[OF f] obtain m ms where
    ms: "length ms = nat (n_boot self0)"
    and s: "self = self0\<lparr>b_estimators := ms, calibration_cv := Some cv,
                     calibrated_estimator := Some (Fitted_Calibrated m),
                     boot_size := Some (case bsize of None \<Rightarrow> int (length Xt) | Some k \<Rightarrow> k)\<rparr>"
    by blast
  have "ms \<noteq> []" using ms n by auto
  then show "b_estimators self \<noteq> []" using s by simp
  show "int (length (b_estimators self)) = n_boot self" using s ms n by simp
  show "\<exists>m. calibrated_estimator self = Some (Fitted_Calibrated m)" using s by simp
qed

lemma fit_discards:
  "train (estimator self0) cv X y = Inr m \<Longrightarrow>
   fit train draw (self0\<lparr>b_estimators := old_members, calibrated_estimator := old_point\<rparr>)
     X y cv bsize g
   = fit train draw self0 X y cv bsize g"
  by (simp add: fit_def Let_def)

subsection \<open>Gathering rows\<close>

lemma take_rows_ok:
  "\<forall>i\<in>set b_idx. i < length xs \<Longrightarrow> take_rows xs b_idx = Inr (map (\<lambda>i. xs ! i) b_idx)"
  by (simp add: take_rows_def list_all_iff)

subsection \<open>The distribution of the index draw\<close>

lemma sum_list_ones: "sum_list (map (\<lambda>i. 1::real) xs) = real (length xs)"
  by (induction xs) simp_all

lemma choice_prob_seq_uniform:
  "choice_prob_seq True (\<lambda>i. 1) [0..<a] idx =
     (if \<forall>i\<in>set idx. i < a then (1 / real a) ^ length idx else 0)"
  by (induction idx) (simp_all add: sum_list_ones)

lemma np_choice_pmf_default:
  "np_choice_pmf a k True None idx =
     (if length idx = k \<and> (\<forall>i\<in>set idx. i < a) then (1 / real a) ^ k else 0)"
  by (simp add: np_choice_pmf_def choice_prob_seq_uniform)

lemma prod_list_const: "prod_list (map (\<lambda>i. c) idx) = (c::real) ^ length idx"
  by (induction idx) simp_all

lemma sum_list_const_on:
  "\<forall>x\<in>set xs. f x = (c::real) \<Longrightarrow> sum_list (map f xs) = real (length xs) * c"
  by (induction xs) (simp_all add: algebra_simps)

lemma length_concat_const:
  "\<forall>ys\<in>set L. length (f ys) = n \<Longrightarrow> length (concat (map f L)) = length L * n"
  by (induction L) simp_all

lemma length_n_lists_pow: "length (List.n_lists k xs) = length xs ^ k"
proof (induction k)
  case 0
  show ?case by simp
next
  case (Suc k)
  have "length (concat (map (\<lambda>ys. map (\<lambda>y. y # ys) xs) (List.n_lists k xs)))
          = length (List.n_lists k xs) * length xs"
    by (rule length_concat_const) simp
  then show ?case using Suc by simp
qed

lemma np_choice_pmf_total:
  "sum_list (map (np_choice_pmf a k True None) (List.n_lists k [0..<a]))
     = (if a = 0 \<and> 0 < k then 0 else 1)"
proof -
  have each: "\<forall>idx\<in>set (List.n_lists k [0..<a]). np_choice_pmf a k True None idx = (1 / real a) ^ k"
    by (auto simp: np_choice_pmf_default set_n_lists)
  have "sum_list (map (np_choice_pmf a k True None) (List.n_lists k [0..<a]))
          = real (length (List.n_lists k [0..<a])) * (1 / real a) ^ k"
    using each by (rule sum_list_const_on)
  also have "\<dots> = real a ^ k * (1 / real a) ^ k" by (simp add: length_n_lists_pow)
  also have "\<dots> = (if a = 0 \<and> 0 < k then 0 else 1)"
    by (simp add: power_one_over)
  finally show ?thesis .
qed

lemma np_choice_pmf_positive:
  assumes "0 < np_choice_pmf a k True None idx"
  shows "length idx = k" "\<forall>i\<in>set idx. i < a"
  using assms by (auto simp: np_choice_pmf_default split: if_splits)

subsection \<open>The samples of the loop\<close>

lemma boot_loop_samples:
  assumes "boot_loop train draw X y j self g = (None, s', g')"
    and "boot_size self = Some sz" and "calibration_cv self = Some cv"
  shows "length (boot_samples draw X y sz j g) = j \<and>
         (\<exists>ms. b_estimators s' = b_estimators self @ ms \<and>
               map Inr ms = map (\<lambda>(Xr, yr). train (estimator self) cv Xr yr)
                              (boot_samples draw X y sz j g))"
  using assms
proof (induction j arbitrary: self g)
  case 0
  then show ?case by simp
next
  case (Suc j)
  from Suc.prems obtain Xr yr g1 m where
    r: "resample draw g X y sz = Inr (Xr, yr, g1)"
    and t: "train (estimator self) cv Xr yr = Inr m"
    and step: "boot_loop train draw X y j (self\<lparr>b_estimators := b_estimators self @ [m]\<rparr>) g1
                 = (None, s', g')"
    by (auto split: sum.splits prod.splits)
  let ?self = "self\<lparr>b_estimators := b_estimators self @ [m]\<rparr>"
  have "boot_size ?self = Some sz" "calibration_cv ?self = Some cv"
    using Suc.prems by simp_all
  from Suc.IH[OF step this] obtain ms where
    len: "length (boot_samples draw X y sz j g1) = j"
    and ms: "b_estimators s' = b_estimators ?self @ ms"
    and tr: "map Inr ms = map (\<lambda>(Xr, yr). train (estimator ?self) cv Xr yr)
                            (boot_samples draw X y sz j g1)"
    by blast
  have "b_estimators s' = b_estimators self @ (m # ms)" using ms by simp
  moreover have "map Inr (m # ms) = map (\<lambda>(Xr, yr). train (estimator self) cv Xr yr)
                            (boot_samples draw X y sz (Suc j) g)"
    using r t tr by simp
  moreover have "length (boot_samples draw X y sz (Suc j) g) = Suc j" using r len by simp
  ultimately show ?case by blast
qed

lemma boot_samples_resampled:
  "(Xr, yr) \<in> set (boot_samples draw X y sz j g) \<Longrightarrow>
   \<exists>g1 g2. resample draw g1 X y sz = Inr (Xr, yr, g2)"
proof (induction j arbitrary: g)
  case 0
  then show ?case by simp
next
  case (Suc j)
  show ?case
  proof (cases "resample draw g X y sz")
    case (Inl e)
    then show ?thesis using Suc.prems by simp
  next
    case (Inr r)
    obtain X1 y1 g1 where r: "r = (X1, y1, g1)" by (cases r) auto
    show ?thesis
    proof (cases "(Xr, yr) = (X1, y1)")
      case True
      then have "resample draw g X y sz = Inr (Xr, yr, g1)" using Inr r by simp
      then show ?thesis by blast
    next
      case False
      then have "(Xr, yr) \<in> set (boot_samples draw X y sz j g1)"
        using Suc.prems Inr r by auto
      then show ?thesis by (rule Suc.IH)
    qed
  qed
qed

lemma fit_samples:
  assumes f: "fit train draw self0 X y cv bsize g = (None, self, g')"
    and sz: "sz = (case bsize of None \<Rightarrow> int (length X) | Some k \<Rightarrow> k)"
  shows "boot_size self = Some sz"
    and "length (boot_samples draw X y sz (nat (n_boot self0)) g) = nat (n_boot self0)"
    and "map Inr (b_estimators self)
           = map (\<lambda>(Xr, yr). train (estimator self0) cv Xr yr)
               (boot_samples draw X y sz (nat (n_boot self0)) g)"
proof -
  from f obtain m where m: "train (estimator self0) cv X y = Inr m"
    by (auto simp: fit_def Let_def split: sum.splits)
  let ?s4 = "self0\<lparr>calibration_cv := Some cv,
                    calibrated_estimator := Some (Fitted_Calibrated m),
                    boot_size := Some sz, b_estimators := []\<rparr>"
  have bl: "boot_loop train draw X y (nat (n_boot self0)) ?s4 g = (None, self, g')"
    using f m sz by (simp add: fit_def Let_def)
  have b: "boot_size ?s4 = Some sz" and c: "calibration_cv ?s4 = Some cv" by simp_all
  note r = boot_loop_samples[OF bl b c]
  show "boot_size self = Some sz" using fit_success[OF f] sz by auto
  show "length (boot_samples draw X y sz (nat (n_boot self0)) g) = nat (n_boot self0)"
    using r by blast
  show "map Inr (b_estimators self)
           = map (\<lambda>(Xr, yr). train (estimator self0) cv Xr yr)
               (boot_samples draw X y sz (nat (n_boot self0)) g)"
    using r by auto
qed

lemma resample_possible:
  assumes R: "0 < length X" and yl: "length y = length X" and k: "0 \<le> sz"
    and dr: "draws_possible draw"
    and d: "draw g (length X) (nat sz) = (b_idx, g')"
  shows "resample draw g X y sz = Inr (map (\<lambda>i. X ! i) b_idx, map (\<lambda>i. y ! i) b_idx, g')"
    and "int (length b_idx) = sz" and "\<forall>i\<in>set b_idx. i < length X"
proof -
  have "0 < np_choice_pmf (length X) (nat sz) True None (fst (draw g (length X) (nat sz)))"
    using dr R by (simp add: draws_possible_def)
  then have p: "0 < np_choice_pmf (length X) (nat sz) True None b_idx" using d by simp
  show len: "int (length b_idx) = sz" using np_choice_pmf_positive(1)[OF p] k by simp
  show rng: "\<forall>i\<in>set b_idx. i < length X" using np_choice_pmf_positive(2)[OF p] .
  have ch: "np_random_choice draw g (length X) sz = Inr (b_idx, g')"
    using k R d by (simp add: np_random_choice_def)
  have tx: "take_rows X b_idx = Inr (map (\<lambda>i. X ! i) b_idx)" using rng by (rule take_rows_ok)
  have ty: "take_rows y b_idx = Inr (map (\<lambda>i. y ! i) b_idx)"
    using rng yl by (intro take_rows_ok) simp
  show "resample draw g X y sz = Inr (map (\<lambda>i. X ! i) b_idx, map (\<lambda>i. y ! i) b_idx, g')"
    by (simp add: resample_def ch tx ty)
qed


lemma const_draw_possible: "draws_possible const_draw"
  by (simp add: draws_possible_def np_choice_pmf_default const_draw_def)

section \<open>The properties\<close>

subsection \<open>Order of the bounds\<close>

text \<open>
  C7. For an estimator left by a successful \<open>fit\<close> with \<open>n_boot \<ge> 1\<close> and every integer
  confidence level in \<open>{1, ..., 99}\<close>, \<open>predict\<close> returns, and its lower bound is at most its
  upper bound for every sample: the tail mass lies in \<open>(0, 1/2)\<close>, and the interpolated
  quantile of a column does not decrease with the level.
\<close>

theorem predict_lower_le_upper:
  assumes f: "fit train draw self0 Xt y cv bsize g = (None, self, g')"
    and n: "1 \<le> n_boot self0"
    and c: "1 \<le> c" "c \<le> 99"
  shows "\<exists>y_pred lower_bounds upper_bounds.
           predict self X (PyInt c) = (Inr (y_pred, lower_bounds, upper_bounds), self) \<and>
           length lower_bounds = length X \<and> length upper_bounds = length X \<and>
           (\<forall>i < length X. lower_bounds ! i \<le> upper_bounds ! i)"
proof -
  let ?q = "(1 - real_of_int c / 100) / 2"
  note st = fit_fitted_state[OF f n]
  from st(3) obtain m where m: "calibrated_estimator self = Some (Fitted_Calibrated m)" ..
  have c': "0 < c" "c < 100" using c by simp_all
  have r: "0 < real_of_int c" "real_of_int c < 100" using c' by simp_all
  have q: "0 \<le> ?q" "?q \<le> 1 - ?q" "1 - ?q \<le> 1" using r by (simp_all add: field_simps)
  have "quantile_linear (map (\<lambda>est. est x) (b_estimators self)) ?q
          \<le> quantile_linear (map (\<lambda>est. est x) (b_estimators self)) (1 - ?q)" for x
    using st(1) q by (intro quantile_linear_mono) simp_all
  then show ?thesis
    by (simp add: predict_def predict_result_fitted[OF st(1) st(2) m c'])
qed

theorem predict_lower_le_upper_witness:
  "fit prior_train const_draw (unfitted 3) example_X example_y () None (0::nat)
     = (None, fitted_example, 3) \<and>
   1 \<le> n_boot (unfitted 3) \<and> (1::int) \<le> 95 \<and> (95::int) \<le> 99 \<and>
   (\<exists>y_pred lower_bounds upper_bounds.
      predict fitted_example [[5], [6]] (PyInt 95)
        = (Inr (y_pred, lower_bounds, upper_bounds), fitted_example) \<and>
      length lower_bounds = length [[5::real], [6]] \<and>
      length upper_bounds = length [[5::real], [6]] \<and>
      (\<forall>i < length [[5::real], [6]]. lower_bounds ! i \<le> upper_bounds ! i))"
proof -
  have c: "(1::int) \<le> 95" "(95::int) \<le> 99" by simp_all
  show ?thesis
    using example_fit example_n_boot c
      predict_lower_le_upper[OF example_fit example_n_boot c, of "[[5], [6]]"]
    by blast
qed

subsection \<open>Monotonicity in the confidence level\<close>

text \<open>
  C6. For a fixed estimator left by a successful \<open>fit\<close> and fixed input rows, a larger
  confidence level never narrows the interval: for valid integer levels \<open>c1 < c2\<close>,
  \<open>predict\<close> returns at both levels bounds with one entry per sample, and for every
  sample the width \<open>upper - lower\<close> returned at \<open>c2\<close> is at least the width returned at
  \<open>c1\<close>.
\<close>

theorem predict_width_monotone:
  assumes f: "fit train draw self0 Xt y cv bsize g = (None, self, g')"
    and n: "1 \<le> n_boot self0"
    and c: "0 < c1" "c1 < c2" "c2 < 100"
  shows "\<exists>p1 l1 u1 p2 l2 u2.
           predict self X (PyInt c1) = (Inr (p1, l1, u1), self) \<and>
           predict self X (PyInt c2) = (Inr (p2, l2, u2), self) \<and>
           length l1 = length X \<and> length u1 = length X \<and>
           length l2 = length X \<and> length u2 = length X \<and>
           (\<forall>i < length X. u1 ! i - l1 ! i \<le> u2 ! i - l2 ! i)"
proof -
  let ?q1 = "(1 - real_of_int c1 / 100) / 2" and ?q2 = "(1 - real_of_int c2 / 100) / 2"
  let ?col = "\<lambda>x. map (\<lambda>est. est x) (b_estimators self)"
  note st = fit_fitted_state[OF f n]
  from st(3) obtain m where m: "calibrated_estimator self = Some (Fitted_Calibrated m)" ..
  have c1: "0 < c1" "c1 < 100" and c2: "0 < c2" "c2 < 100" using c by simp_all
  have r: "0 < real_of_int c1" "real_of_int c1 < real_of_int c2" "real_of_int c2 < 100"
    using c by simp_all
  have q: "0 \<le> ?q2" "?q2 \<le> ?q1" "?q1 \<le> 1" "0 \<le> 1 - ?q1" "1 - ?q1 \<le> 1 - ?q2" "1 - ?q2 \<le> 1"
    using r by (simp_all add: field_simps)
  have lo: "quantile_linear (?col x) ?q2 \<le> quantile_linear (?col x) ?q1" for x
    using st(1) q by (intro quantile_linear_mono) simp_all
  have up: "quantile_linear (?col x) (1 - ?q1) \<le> quantile_linear (?col x) (1 - ?q2)" for x
    using st(1) q by (intro quantile_linear_mono) simp_all
  have "quantile_linear (?col x) (1 - ?q1) - quantile_linear (?col x) ?q1
          \<le> quantile_linear (?col x) (1 - ?q2) - quantile_linear (?col x) ?q2" for x
    using lo[of x] up[of x] by linarith
  then show ?thesis
    by (simp add: predict_def predict_result_fitted[OF st(1) st(2) m c1]
        predict_result_fitted[OF st(1) st(2) m c2])
qed

theorem predict_width_monotone_witness:
  "fit prior_train const_draw (unfitted 3) example_X example_y () None (0::nat)
     = (None, fitted_example, 3) \<and>
   1 \<le> n_boot (unfitted 3) \<and> (0::int) < 80 \<and> (80::int) < 95 \<and> (95::int) < 100 \<and>
   (\<exists>p1 l1 u1 p2 l2 u2.
      predict fitted_example [[5], [6]] (PyInt 80) = (Inr (p1, l1, u1), fitted_example) \<and>
      predict fitted_example [[5], [6]] (PyInt 95) = (Inr (p2, l2, u2), fitted_example) \<and>
      length l1 = length [[5::real], [6]] \<and> length u1 = length [[5::real], [6]] \<and>
      length l2 = length [[5::real], [6]] \<and> length u2 = length [[5::real], [6]] \<and>
      (\<forall>i < length [[5::real], [6]]. u1 ! i - l1 ! i \<le> u2 ! i - l2 ! i))"
proof -
  have c: "(0::int) < 80" "(80::int) < 95" "(95::int) < 100" by simp_all
  show ?thesis
    using example_fit example_n_boot c
      predict_width_monotone[OF example_fit example_n_boot c, of "[[5], [6]]"]
    by blast
qed

subsection \<open>The bounds are the interpolated quantiles of the member probabilities\<close>

text \<open>
  C3. For every integer confidence level \<open>c\<close> with \<open>0 < c < 100\<close>, \<open>predict\<close> uses the tail
  mass \<open>\<alpha> = (1 - c/100)/2\<close> and returns, for each sample independently, the \<open>\<alpha>\<close>-quantile
  as lower bound and the \<open>(1 - \<alpha>)\<close>-quantile as upper bound of the \<open>n_boot\<close> probabilities
  that the bootstrap members give to that sample, each quantile interpolated linearly
  between the order statistics at the floor and at the ceiling of the fractional rank.
\<close>

theorem predict_quantiles:
  assumes f: "fit train draw self0 Xt y cv bsize g = (None, self, g')"
    and n: "1 \<le> n_boot self0"
    and c: "0 < c" "c < 100"
    and a: "\<alpha> = (1 - real_of_int c / 100) / 2"
  shows "length (b_estimators self) = nat (n_boot self0) \<and>
         (\<exists>y_pred.
           predict self X (PyInt c) =
             (Inr (y_pred,
                   map (\<lambda>x. interpolated_quantile (map (\<lambda>est. est x) (b_estimators self)) \<alpha>) X,
                   map (\<lambda>x. interpolated_quantile (map (\<lambda>est. est x) (b_estimators self)) (1 - \<alpha>)) X),
              self))"
proof -
  note st = fit_fitted_state[OF f n]
  from st(3) obtain m where m: "calibrated_estimator self = Some (Fitted_Calibrated m)" ..
  have r: "0 < real_of_int c" "real_of_int c < 100" using c by simp_all
  have q: "0 \<le> \<alpha>" "\<alpha> \<le> 1" "0 \<le> 1 - \<alpha>" "1 - \<alpha> \<le> 1" unfolding a using r by (simp_all add: field_simps)
  have ne: "map (\<lambda>est. est x) (b_estimators self) \<noteq> []" for x using st(1) by simp
  have len: "length (b_estimators self) = nat (n_boot self0)"
    using fit_success[OF f] by auto
  show ?thesis
    using len
    by (simp add: predict_def predict_result_fitted[OF st(1) st(2) m c] a[symmetric]
        quantile_linear_spec[OF ne q(1,2)] quantile_linear_spec[OF ne q(3,4)])
qed

theorem predict_quantiles_witness:
  "fit prior_train const_draw (unfitted 3) example_X example_y () None (0::nat)
     = (None, fitted_example, 3) \<and>
   1 \<le> n_boot (unfitted 3) \<and> (0::int) < 95 \<and> (95::int) < 100 \<and>
   (1 / 40 :: real) = (1 - real_of_int 95 / 100) / 2 \<and>
   length (b_estimators fitted_example) = nat (n_boot (unfitted 3)) \<and>
   (\<exists>y_pred.
      predict fitted_example [[5], [6]] (PyInt 95) =
        (Inr (y_pred,
              map (\<lambda>x. interpolated_quantile (map (\<lambda>est. est x) (b_estimators fitted_example))
                          (1 / 40)) [[5], [6]],
              map (\<lambda>x. interpolated_quantile (map (\<lambda>est. est x) (b_estimators fitted_example))
                          (1 - 1 / 40)) [[5], [6]]),
         fitted_example))"
proof -
  have c: "(0::int) < 95" "(95::int) < 100" by simp_all
  have a: "(1 / 40 :: real) = (1 - real_of_int 95 / 100) / 2" by simp
  show ?thesis
    using example_fit example_n_boot c a
      predict_quantiles[OF example_fit example_n_boot c a, of "[[5], [6]]"]
    by blast
qed

subsection \<open>The checks of predict and their order\<close>

text \<open>
  C8, as the code has it. \<open>predict\<close> raises the not-fitted Warning exactly when the list of
  bootstrap members is empty. It raises the confidence-level Warning exactly when that list
  is not empty and the level is not an \<open>int\<close> strictly between 0 and 100: the fitted check
  comes first, so an estimator that is not fitted answers an invalid level with the
  not-fitted Warning. With members and a valid level no Warning is raised.
\<close>

theorem predict_validation:
  "((fst (predict self X ci) = Inl (Warning not_fitted_msg)) = (b_estimators self = [])) \<and>
   ((fst (predict self X ci) = Inl (Warning ci_msg)) = (b_estimators self \<noteq> [] \<and> \<not> valid_ci ci)) \<and>
   (b_estimators self \<noteq> [] \<and> valid_ci ci \<longrightarrow> (\<forall>msg. fst (predict self X ci) \<noteq> Inl (Warning msg)))"
proof (cases "b_estimators self = []")
  case True
  then show ?thesis using msgs_distinct by (simp add: predict_def predict_result_unfitted)
next
  case ne: False
  show ?thesis
  proof (cases "valid_ci ci")
    case True
    then show ?thesis using ne predict_result_valid_no_warning[OF ne True, of X]
      by (simp add: predict_def)
  next
    case False
    then show ?thesis using ne msgs_distinct by (simp add: predict_def predict_result_invalid_ci)
  qed
qed

text \<open>
  The claim as stated fails on an estimator that is not fitted: the level 100 is invalid,
  and the error is the not-fitted Warning, not the confidence-level one.
\<close>

theorem predict_validation_counterexample:
  "predict (unfitted 3) example_X (PyInt 100) = (Inl (Warning not_fitted_msg), unfitted 3) \<and>
   \<not> valid_ci (PyInt 100) \<and>
   fst (predict (unfitted 3) example_X (PyInt 100)) \<noteq> Inl (Warning ci_msg)"
  by (simp add: predict_def predict_result_def unfitted_def valid_ci_def
      not_fitted_msg_def ci_msg_def)

theorem predict_validation_witness:
  "((fst (predict fitted_example example_X (PyInt 100)) = Inl (Warning not_fitted_msg))
      = (b_estimators fitted_example = [])) \<and>
   ((fst (predict fitted_example example_X (PyInt 100)) = Inl (Warning ci_msg))
      = (b_estimators fitted_example \<noteq> [] \<and> \<not> valid_ci (PyInt 100))) \<and>
   b_estimators fitted_example \<noteq> [] \<and> \<not> valid_ci (PyInt 100) \<and>
   fst (predict fitted_example example_X (PyInt 100)) = Inl (Warning ci_msg)"
proof -
  have ne: "b_estimators fitted_example \<noteq> []"
    unfolding fitted_example_def by (simp add: example_fit_full)
  have nv: "\<not> valid_ci (PyInt 100)" by (simp add: valid_ci_def)
  show ?thesis
    using predict_validation[of fitted_example example_X "PyInt 100"] ne nv by blast
qed

subsection \<open>predict leaves the object unchanged\<close>

text \<open>
  C10. For every estimator and every input, the object after \<open>predict\<close> is the object
  before it: the point model, the bootstrap members, \<open>n_boot\<close>, the classifier template,
  the stored sample size and the calibration configuration are all unchanged, whether the
  call returns or raises.
\<close>

theorem predict_frame: "snd (predict self X ci) = self"
  by (simp add: predict_def)

theorem predict_frame_witness:
  "snd (predict fitted_example example_X (PyInt 95)) = fitted_example \<and>
   snd (predict (unfitted 3) example_X (PyFloat 95)) = unfitted 3"
  using predict_frame[of fitted_example example_X "PyInt 95"]
    predict_frame[of "unfitted 3" example_X "PyFloat 95"]
  by simp

subsection \<open>No bootstrap member\<close>

text \<open>
  What the code does with \<open>n_boot = 0\<close>, on every dataset on which the point model can be
  trained: \<open>fit\<close> succeeds and leaves the list of bootstrap members empty, and every later
  \<open>predict\<close> stops at its check of fittedness, \<open>if not self.b_estimators\<close>, whatever the
  input and the confidence level.
\<close>

lemma n_boot_zero_never_fitted:
  assumes i: "init est (PyInt 0) = Inr self0" and t: "train est cv X y = Inr m"
  shows "\<exists>self. fit train draw self0 X y cv bsize g = (None, self, g) \<and>
           b_estimators self = [] \<and>
           calibrated_estimator self = Some (Fitted_Calibrated m) \<and>
           (\<forall>X' ci. predict self X' ci = (Inl (Warning not_fitted_msg), self))"
proof -
  have s0: "estimator self0 = est" "n_boot self0 = 0" using i by (auto simp: init_def)
  show ?thesis
    using s0 t by (simp add: fit_def Let_def predict_def predict_result_def)
qed

text \<open>
  C2. For an estimator constructed with \<open>n_boot = 0\<close>, \<open>fit\<close> succeeds and leaves the
  sequence of bootstrap members empty, and a later \<open>predict\<close> returns without raising. The
  code does the first and breaks the second. At the input below the constructor accepts
  \<open>n_boot = 0\<close> (its test is \<open>n_boot < 0\<close>, although its message asks for an integer larger
  than 0), \<open>fit\<close> succeeds on three rows and leaves no member, and \<open>predict\<close> on the same
  rows at the level 95 raises \<open>Use fit method first\<close>, although \<open>fit\<close> has run: the check
  that the source comments as verifying that the class is fitted takes the empty list of
  members for an estimator that was never fitted.
\<close>

theorem fit_predict_n_boot_zero_failing_input:
  "init () (PyInt 0) = Inr (unfitted 0) \<and>
   fit prior_train const_draw (unfitted 0) example_X example_y () None (0::nat)
     = (None, empty_example, 0) \<and>
   b_estimators empty_example = [] \<and>
   predict empty_example example_X (PyInt 95) = (Inl (Warning not_fitted_msg), empty_example)"
  by (simp add: empty_example_def init_def fit_def Let_def example_defs predict_def
      predict_result_def)

subsection \<open>The prediction bundle\<close>

text \<open>
  C1, as the code has it. For an estimator left by a successful \<open>fit\<close> with \<open>n_boot \<ge> 1\<close>,
  a valid confidence level and input rows on which the point model and the bootstrap
  members give probabilities in \<open>[0, 1]\<close>, \<open>predict\<close> returns three vectors with one entry
  per row: the point vector holds the probabilities of the model trained on the full data,
  the bounds are quantiles of the members' probabilities, all three values lie in
  \<open>[0, 1]\<close>, and the lower bound is at most the upper bound. Nothing places the point
  probability between the bounds.
\<close>

theorem predict_bundle:
  assumes f: "fit train draw self0 Xt y cv bsize g = (None, self, g')"
    and n: "1 \<le> n_boot self0"
    and c: "0 < c" "c < 100"
    and pm: "calibrated_estimator self = Some (Fitted_Calibrated m)"
    and pr: "\<forall>x\<in>set X. 0 \<le> m x \<and> m x \<le> 1"
    and br: "\<forall>est\<in>set (b_estimators self). \<forall>x\<in>set X. 0 \<le> est x \<and> est x \<le> 1"
  shows "train (estimator self0) cv Xt y = Inr m \<and>
         (\<exists>y_pred lower_bounds upper_bounds.
            predict self X (PyInt c) = (Inr (y_pred, lower_bounds, upper_bounds), self) \<and>
            y_pred = map m X \<and>
            length lower_bounds = length X \<and> length upper_bounds = length X \<and>
            (\<forall>i < length X.
               0 \<le> y_pred ! i \<and> y_pred ! i \<le> 1 \<and>
               0 \<le> lower_bounds ! i \<and> lower_bounds ! i \<le> upper_bounds ! i \<and>
               upper_bounds ! i \<le> 1))"
proof -
  let ?q = "(1 - real_of_int c / 100) / 2"
  let ?col = "\<lambda>x. map (\<lambda>est. est x) (b_estimators self)"
  note st = fit_fitted_state[OF f n]
  have tr: "train (estimator self0) cv Xt y = Inr m"
    using fit_success[OF f] pm by auto
  have r: "0 < real_of_int c" "real_of_int c < 100" using c by simp_all
  have q: "0 \<le> ?q" "?q \<le> 1 - ?q" "1 - ?q \<le> 1" "?q \<le> 1" "0 \<le> 1 - ?q"
    using r by (simp_all add: field_simps)
  have ne: "?col x \<noteq> []" for x using st(1) by simp
  have rng: "\<forall>v\<in>set (?col x). 0 \<le> v \<and> v \<le> 1" if "x \<in> set X" for x
    using br that by auto
  have lo: "0 \<le> quantile_linear (?col x) ?q" if "x \<in> set X" for x
    using quantile_linear_range[OF ne q(1) q(4) rng[OF that]] by simp
  have up: "quantile_linear (?col x) (1 - ?q) \<le> 1" if "x \<in> set X" for x
    using quantile_linear_range[OF ne q(5) q(3) rng[OF that]] by simp
  have mid: "quantile_linear (?col x) ?q \<le> quantile_linear (?col x) (1 - ?q)" for x
    using quantile_linear_mono[OF ne q(1) q(2) q(3)] .
  show ?thesis
    using tr pr lo up mid
    by (simp add: predict_def predict_result_fitted[OF st(1) st(2) pm c])
qed

text \<open>
  The claim as stated fails. On the labels \<open>[0, 1]\<close> the point model predicts \<open>1/2\<close>; the
  one bootstrap sample draws the second row twice, and its member predicts \<open>1\<close>: both
  bounds are \<open>1\<close>, above the point probability.
\<close>

theorem predict_bundle_counterexample:
  "init () (PyInt 1) = Inr (unfitted 1) \<and>
   fit prior_train const_draw (unfitted 1) [[0], [1]] [0, 1] () None (1::nat)
     = (None, skewed_example, 2) \<and>
   predict skewed_example [[0], [1]] (PyInt 95)
     = (Inr ([1 / 2, 1 / 2], [1, 1], [1, 1]), skewed_example) \<and>
   \<not> ([1, 1] ! 0 \<le> [1 / 2, 1 / 2 :: real] ! 0)"
  by (simp add: skewed_example_def init_def fit_def Let_def example_defs replicate_numeral
      predict_def predict_result_def np_quantile_axis0_def quantile_linear_def)

theorem predict_bundle_witness:
  "fit prior_train const_draw (unfitted 3) example_X example_y () None (0::nat)
     = (None, fitted_example, 3) \<and>
   1 \<le> n_boot (unfitted 3) \<and> (0::int) < 95 \<and> (95::int) < 100 \<and>
   calibrated_estimator fitted_example = Some (Fitted_Calibrated (\<lambda>r. 1 / 3)) \<and>
   list_all (\<lambda>x. (0::real) \<le> (\<lambda>r. 1 / 3) x \<and> (\<lambda>r. 1 / 3) x \<le> (1::real)) example_X \<and>
   list_all (\<lambda>est. list_all (\<lambda>x. 0 \<le> est x \<and> est x \<le> 1) example_X)
     (b_estimators fitted_example) \<and>
   prior_train (estimator (unfitted 3)) () example_X example_y = Inr (\<lambda>r. 1 / 3) \<and>
   (\<exists>y_pred lower_bounds upper_bounds.
      predict fitted_example example_X (PyInt 95)
        = (Inr (y_pred, lower_bounds, upper_bounds), fitted_example) \<and>
      y_pred = map (\<lambda>r. 1 / 3) example_X \<and>
      length lower_bounds = length example_X \<and> length upper_bounds = length example_X \<and>
      (\<forall>i < length example_X.
         0 \<le> y_pred ! i \<and> y_pred ! i \<le> 1 \<and>
         0 \<le> lower_bounds ! i \<and> lower_bounds ! i \<le> upper_bounds ! i \<and>
         upper_bounds ! i \<le> 1))"
proof -
  have c: "(0::int) < 95" "(95::int) < 100" by simp_all
  have pm: "calibrated_estimator fitted_example = Some (Fitted_Calibrated (\<lambda>r. 1 / 3))"
    unfolding fitted_example_def by (simp add: example_fit_full)
  have pr: "\<forall>x\<in>set example_X. (0::real) \<le> (\<lambda>r. 1 / 3) x \<and> (\<lambda>r. 1 / 3) x \<le> (1::real)"
    by simp
  have br: "\<forall>est\<in>set (b_estimators fitted_example). \<forall>x\<in>set example_X.
              0 \<le> est x \<and> est x \<le> 1"
    unfolding fitted_example_def by (simp add: example_fit_full)
  have pr': "list_all (\<lambda>x. (0::real) \<le> (\<lambda>r. 1 / 3) x \<and> (\<lambda>r. 1 / 3) x \<le> (1::real)) example_X"
    using pr by (simp add: list_all_iff)
  have br': "list_all (\<lambda>est. list_all (\<lambda>x. 0 \<le> est x \<and> est x \<le> 1) example_X)
               (b_estimators fitted_example)"
    using br by (simp add: list_all_iff)
  show ?thesis
    using example_fit example_n_boot c pm pr' br'
      predict_bundle[OF example_fit example_n_boot c pm pr br]
    by blast
qed

subsection \<open>The bootstrap sample\<close>

text \<open>
  C4. For a dataset of \<open>R > 0\<close> rows with as many labels, a requested sample size that is
  a number of rows (\<open>R\<close> itself when none is given), and a generator that honours the
  distribution of \<open>np.random.choice\<close> for the arguments of the call:
  \<^item> at every generator state the resampling step returns, with exactly that many rows and
    labels (exactly \<open>R\<close> when no size is given); they are the rows and labels at the drawn
    indices, in the order drawn, and every drawn index is below \<open>R\<close>;
  \<^item> the probability of an index vector of that length over \<open>[0, R)\<close> is the product, over
    its positions, of the probability \<open>1/R\<close> of one index: the indices are independent and
    uniform, repeated indices included, and these probabilities sum to 1;
  \<^item> in every successful \<open>fit\<close> the stored sample size is that size, the loop builds
    \<open>n_boot\<close> samples, the bootstrap members are the models trained on them, in order,
    and every sample has exactly that many rows, each with its label a row of the input
    with its label.
\<close>

theorem resample_rows:
  assumes R: "0 < length X" and yl: "length y = length X"
    and sz: "sz = (case bsize of None \<Rightarrow> int (length X) | Some k \<Rightarrow> k)" and k: "0 \<le> sz"
    and dr: "draws_possible draw"
  shows "(\<forall>g. \<exists>b_idx g'.
            draw g (length X) (nat sz) = (b_idx, g') \<and>
            resample draw g X y sz = Inr (map (\<lambda>i. X ! i) b_idx, map (\<lambda>i. y ! i) b_idx, g') \<and>
            int (length b_idx) = sz \<and> (bsize = None \<longrightarrow> length b_idx = length X) \<and>
            (\<forall>i\<in>set b_idx. i < length X)) \<and>
         (\<forall>idx. np_choice_pmf (length X) (nat sz) True None idx =
                  (if length idx = nat sz \<and> (\<forall>i\<in>set idx. i < length X)
                   then prod_list (map (\<lambda>i. 1 / real (length X)) idx) else 0)) \<and>
         sum_list (map (np_choice_pmf (length X) (nat sz) True None)
                     (List.n_lists (nat sz) [0..<length X])) = 1 \<and>
         (\<forall>train self0 cv g self g'.
            fit train draw self0 X y cv bsize g = (None, self, g') \<longrightarrow>
              boot_size self = Some sz \<and>
              length (boot_samples draw X y sz (nat (n_boot self0)) g) = nat (n_boot self0) \<and>
              map Inr (b_estimators self)
                = map (\<lambda>(Xr, yr). train (estimator self0) cv Xr yr)
                    (boot_samples draw X y sz (nat (n_boot self0)) g) \<and>
              (\<forall>(Xr, yr) \<in> set (boot_samples draw X y sz (nat (n_boot self0)) g).
                 int (length Xr) = sz \<and> length yr = length Xr \<and>
                 (bsize = None \<longrightarrow> length Xr = length X) \<and>
                 (\<forall>j < length Xr. \<exists>i < length X. Xr ! j = X ! i \<and> yr ! j = y ! i)))"
proof -
  have none: "bsize = None \<longrightarrow> nat sz = length X" using sz by auto
  have step: "\<exists>b_idx g'.
            draw g (length X) (nat sz) = (b_idx, g') \<and>
            resample draw g X y sz = Inr (map (\<lambda>i. X ! i) b_idx, map (\<lambda>i. y ! i) b_idx, g') \<and>
            int (length b_idx) = sz \<and> (bsize = None \<longrightarrow> length b_idx = length X) \<and>
            (\<forall>i\<in>set b_idx. i < length X)" for g
  proof -
    obtain b_idx g' where d: "draw g (length X) (nat sz) = (b_idx, g')"
      by (cases "draw g (length X) (nat sz)") auto
    note r = resample_possible[OF R yl k dr d]
    have "bsize = None \<longrightarrow> length b_idx = length X" using r(2) none by auto
    then show ?thesis using d r by blast
  qed
  have pmf: "np_choice_pmf (length X) (nat sz) True None idx =
                  (if length idx = nat sz \<and> (\<forall>i\<in>set idx. i < length X)
                   then prod_list (map (\<lambda>i. 1 / real (length X)) idx) else 0)" for idx
    by (simp add: np_choice_pmf_default prod_list_const)
  have total: "sum_list (map (np_choice_pmf (length X) (nat sz) True None)
                     (List.n_lists (nat sz) [0..<length X])) = 1"
    using R by (simp add: np_choice_pmf_total)
  have sample: "int (length Xr) = sz \<and> length yr = length Xr \<and>
                 (bsize = None \<longrightarrow> length Xr = length X) \<and>
                 (\<forall>j < length Xr. \<exists>i < length X. Xr ! j = X ! i \<and> yr ! j = y ! i)"
    if "(Xr, yr) \<in> set (boot_samples draw X y sz j g)" for Xr yr j g
  proof -
    from boot_samples_resampled[OF that] obtain g1 g2 where
      r: "resample draw g1 X y sz = Inr (Xr, yr, g2)" by blast
    from step[of g1] obtain b_idx where
      e: "Xr = map (\<lambda>i. X ! i) b_idx" "yr = map (\<lambda>i. y ! i) b_idx"
      and l: "int (length b_idx) = sz" "bsize = None \<longrightarrow> length b_idx = length X"
      and rng: "\<forall>i\<in>set b_idx. i < length X"
      using r by auto
    have "\<forall>j < length b_idx. \<exists>i < length X. X ! (b_idx ! j) = X ! i \<and> y ! (b_idx ! j) = y ! i"
      using rng by (metis nth_mem)
    then show ?thesis using e l by simp
  qed
  have fitc: "boot_size self = Some sz \<and>
              length (boot_samples draw X y sz (nat (n_boot self0)) g) = nat (n_boot self0) \<and>
              map Inr (b_estimators self)
                = map (\<lambda>(Xr, yr). train (estimator self0) cv Xr yr)
                    (boot_samples draw X y sz (nat (n_boot self0)) g) \<and>
              (\<forall>(Xr, yr) \<in> set (boot_samples draw X y sz (nat (n_boot self0)) g).
                 int (length Xr) = sz \<and> length yr = length Xr \<and>
                 (bsize = None \<longrightarrow> length Xr = length X) \<and>
                 (\<forall>j < length Xr. \<exists>i < length X. Xr ! j = X ! i \<and> yr ! j = y ! i))"
    if f: "fit train draw self0 X y cv bsize g = (None, self, g')"
    for train :: "'e \<Rightarrow> 'cv \<Rightarrow> row list \<Rightarrow> int list \<Rightarrow> error + model"
      and self0 self :: "('e, 'cv) ModelBootstrap" and cv g g'
  proof -
    note fs = fit_samples[OF f sz]
    have "\<forall>(Xr, yr) \<in> set (boot_samples draw X y sz (nat (n_boot self0)) g).
                 int (length Xr) = sz \<and> length yr = length Xr \<and>
                 (bsize = None \<longrightarrow> length Xr = length X) \<and>
                 (\<forall>j < length Xr. \<exists>i < length X. Xr ! j = X ! i \<and> yr ! j = y ! i)"
    proof (intro ballI)
      fix x assume x: "x \<in> set (boot_samples draw X y sz (nat (n_boot self0)) g)"
      obtain Xr yr where p: "x = (Xr, yr)" by (cases x) auto
      show "case x of (Xr, yr) \<Rightarrow>
                 int (length Xr) = sz \<and> length yr = length Xr \<and>
                 (bsize = None \<longrightarrow> length Xr = length X) \<and>
                 (\<forall>j < length Xr. \<exists>i < length X. Xr ! j = X ! i \<and> yr ! j = y ! i)"
        unfolding p prod.case using x[unfolded p] by (rule sample)
    qed
    then show ?thesis using fs by (intro conjI)
  qed
  have c1: "\<forall>g. \<exists>b_idx g'.
            draw g (length X) (nat sz) = (b_idx, g') \<and>
            resample draw g X y sz = Inr (map (\<lambda>i. X ! i) b_idx, map (\<lambda>i. y ! i) b_idx, g') \<and>
            int (length b_idx) = sz \<and> (bsize = None \<longrightarrow> length b_idx = length X) \<and>
            (\<forall>i\<in>set b_idx. i < length X)"
    by (rule allI) (rule step)
  have c2: "\<forall>idx. np_choice_pmf (length X) (nat sz) True None idx =
                  (if length idx = nat sz \<and> (\<forall>i\<in>set idx. i < length X)
                   then prod_list (map (\<lambda>i. 1 / real (length X)) idx) else 0)"
    by (rule allI) (rule pmf)
  have c4: "\<forall>(train :: 'e \<Rightarrow> 'cv \<Rightarrow> row list \<Rightarrow> int list \<Rightarrow> error + model)
              (self0 :: ('e, 'cv) ModelBootstrap) cv g self g'.
            fit train draw self0 X y cv bsize g = (None, self, g') \<longrightarrow>
              boot_size self = Some sz \<and>
              length (boot_samples draw X y sz (nat (n_boot self0)) g) = nat (n_boot self0) \<and>
              map Inr (b_estimators self)
                = map (\<lambda>(Xr, yr). train (estimator self0) cv Xr yr)
                    (boot_samples draw X y sz (nat (n_boot self0)) g) \<and>
              (\<forall>(Xr, yr) \<in> set (boot_samples draw X y sz (nat (n_boot self0)) g).
                 int (length Xr) = sz \<and> length yr = length Xr \<and>
                 (bsize = None \<longrightarrow> length Xr = length X) \<and>
                 (\<forall>j < length Xr. \<exists>i < length X. Xr ! j = X ! i \<and> yr ! j = y ! i))"
    by (intro allI impI) (rule fitc)
  from c1 c2 total c4 show ?thesis by (intro conjI)
qed

theorem resample_rows_witness:
  "0 < length example_X \<and> length example_y = length example_X \<and>
   (3::int) = (case None of None \<Rightarrow> int (length example_X) | Some k \<Rightarrow> k) \<and> (0::int) \<le> 3 \<and>
   draws_possible const_draw \<and>
   resample const_draw 1 example_X example_y 3 = Inr ([[1], [1], [1]], [0, 0, 0], 2) \<and>
   np_choice_pmf (length example_X) (nat 3) True None [1, 1, 1] = 1 / 27 \<and>
   np_choice_pmf (length example_X) (nat 3) True None [0, 2, 1] = 1 / 27 \<and>
   fit prior_train const_draw (unfitted 3) example_X example_y () None (0::nat)
     = (None, fitted_example, 3) \<and>
   boot_size fitted_example = Some 3 \<and>
   length (boot_samples const_draw example_X example_y 3 (nat (n_boot (unfitted 3))) 0)
     = nat (n_boot (unfitted 3))"
proof -
  have R: "0 < length example_X" and yl: "length example_y = length example_X"
    by (simp_all add: example_X_def example_y_def)
  have sz: "(3::int) = (case None of None \<Rightarrow> int (length example_X) | Some k \<Rightarrow> k)"
    by (simp add: example_X_def)
  have k: "(0::int) \<le> 3" by simp
  note th = resample_rows[where draw = const_draw and bsize = None, OF R yl sz k const_draw_possible]
  have "\<exists>b_idx g'.
      const_draw 1 (length example_X) (nat 3) = (b_idx, g') \<and>
      resample const_draw 1 example_X example_y 3
        = Inr (map (\<lambda>i. example_X ! i) b_idx, map (\<lambda>i. example_y ! i) b_idx, g') \<and>
      int (length b_idx) = 3 \<and> (None = (None :: int option) \<longrightarrow> length b_idx = length example_X) \<and>
      (\<forall>i\<in>set b_idx. i < length example_X)"
    using th[THEN conjunct1] by (rule spec)
  then have c1: "resample const_draw 1 example_X example_y 3 = Inr ([[1], [1], [1]], [0, 0, 0], 2)"
    by (auto simp: const_draw_def example_X_def example_y_def replicate_numeral)
  note p = th[THEN conjunct2, THEN conjunct1, THEN spec]
  have c2: "np_choice_pmf (length example_X) (nat 3) True None [1, 1, 1] = 1 / 27"
    "np_choice_pmf (length example_X) (nat 3) True None [0, 2, 1] = 1 / 27"
    using p[of "[1, 1, 1]"] p[of "[0, 2, 1]"] by (simp_all add: example_X_def)
  note t4 = th[THEN conjunct2, THEN conjunct2, THEN conjunct2,
      THEN spec[where x = prior_train], THEN spec[where x = "unfitted 3"],
      THEN spec[where x = "()"], THEN spec[where x = "0::nat"],
      THEN spec[where x = fitted_example], THEN spec[where x = "3::nat"],
      THEN mp, OF example_fit]
  have c4: "boot_size fitted_example = Some 3"
    "length (boot_samples const_draw example_X example_y 3 (nat (n_boot (unfitted 3))) 0)
        = nat (n_boot (unfitted 3))"
    using t4 by simp_all
  show ?thesis
    using R yl sz k const_draw_possible c1 c2 example_fit c4 by (intro conjI)
qed

subsection \<open>The state after a successful fit\<close>

text \<open>
  What a successful \<open>fit\<close> leaves: exactly \<open>n_boot\<close> bootstrap members and the point model
  trained on the full data, and nothing of a previous ensemble (the outcome is the same
  whatever members and point model the object held before). The check of fittedness of
  \<open>predict\<close> passes on that state exactly when \<open>n_boot \<ge> 1\<close>.
\<close>

lemma fit_state:
  assumes f: "fit train draw self0 X y cv bsize g = (None, self, g')"
  shows "length (b_estimators self) = nat (n_boot self0) \<and>
         (\<exists>m. train (estimator self0) cv X y = Inr m \<and>
              calibrated_estimator self = Some (Fitted_Calibrated m)) \<and>
         ((fst (predict self X' ci) = Inl (Warning not_fitted_msg)) = (n_boot self0 < 1)) \<and>
         fit train draw (self0\<lparr>b_estimators := old_members, calibrated_estimator := old_point\<rparr>)
           X y cv bsize g = (None, self, g')"
proof -
  from fit_success[OF f] obtain m ms where
    t: "train (estimator self0) cv X y = Inr m" and ms: "length ms = nat (n_boot self0)"
    and s: "self = self0\<lparr>b_estimators := ms, calibration_cv := Some cv,
                     calibrated_estimator := Some (Fitted_Calibrated m),
                     boot_size := Some (case bsize of None \<Rightarrow> int (length X) | Some k \<Rightarrow> k)\<rparr>"
    by blast
  have len: "length (b_estimators self) = nat (n_boot self0)" using s ms by simp
  have pm: "calibrated_estimator self = Some (Fitted_Calibrated m)" using s by simp
  have e: "(b_estimators self = []) = (n_boot self0 < 1)" using len by auto
  have nf: "(fst (predict self X' ci) = Inl (Warning not_fitted_msg)) = (b_estimators self = [])"
  proof (cases "b_estimators self = []")
    case True
    then show ?thesis by (simp add: predict_def predict_result_unfitted)
  next
    case ne: False
    show ?thesis
    proof (cases "valid_ci ci")
      case True
      then show ?thesis using ne predict_result_valid_no_warning[OF ne True, of X']
        by (simp add: predict_def)
    next
      case False
      then show ?thesis using ne msgs_distinct
        by (simp add: predict_def predict_result_invalid_ci)
    qed
  qed
  have d: "fit train draw
             (self0\<lparr>b_estimators := old_members, calibrated_estimator := old_point\<rparr>)
             X y cv bsize g = fit train draw self0 X y cv bsize g"
    using t by (rule fit_discards)
  show ?thesis
    using len t pm nf e f d by simp
qed

text \<open>
  C5. After every successful \<open>fit\<close> on a dataset of at least one row the estimator is in
  the fitted state, holds exactly \<open>n_boot\<close> bootstrap members and the point model, and has
  discarded any previous ensemble. The code keeps the count, the point model and the
  replacement of the ensemble, and breaks the fitted state for \<open>n_boot = 0\<close>, which the
  constructor accepts. At the input below \<open>fit\<close> succeeds on a dataset of one row, the
  estimator holds its 0 members and its point model, and \<open>predict\<close> still raises
  \<open>Use fit method first\<close>: the only test of the fitted state that the code has, the one
  of \<open>predict\<close>, does not take the estimator for fitted.
\<close>

theorem fit_postcondition_failing_input:
  "fit prior_train const_draw (unfitted 0) [[0]] [1] () None (0::nat)
     = (None, single_row_example, 0) \<and>
   length (b_estimators single_row_example) = 0 \<and>
   calibrated_estimator single_row_example \<noteq> None \<and>
   fst (predict single_row_example [[0]] (PyInt 95)) = Inl (Warning not_fitted_msg)"
  by (simp add: single_row_example_def fit_def Let_def example_defs predict_def
      predict_result_def)

subsection \<open>The sample size is not checked\<close>

text \<open>
  C9, as the code has it. \<open>fit\<close> does not check the requested sample size: once the point
  model is trained, it stores the size, drops the previous members and hands the size to the
  resampling step in every bootstrap iteration. With \<open>n_boot = 0\<close> there is no iteration
  and \<open>fit\<close> succeeds whatever the size. With \<open>n_boot \<ge> 1\<close>, a negative size makes the
  random choice of the first iteration raise \<open>ValueError\<close>, and the size 0 is resampled to
  an empty dataset, on which the first member is trained.
\<close>

theorem fit_boot_size_unchecked:
  assumes t: "train (estimator self) cv X y = Inr m"
    and s: "self' = self\<lparr>calibration_cv := Some cv,
                           calibrated_estimator := Some (Fitted_Calibrated m),
                           boot_size := Some sz, b_estimators := []\<rparr>"
    and d: "draw g (length X) 0 = ([], g')"
  shows "(n_boot self < 1 \<longrightarrow> fit train draw self X y cv (Some sz) g = (None, self', g)) \<and>
         (1 \<le> n_boot self \<and> sz < 0 \<longrightarrow>
            resample draw g X y sz = Inl ValueError \<and>
            fit train draw self X y cv (Some sz) g = (Some ValueError, self', g)) \<and>
         (1 \<le> n_boot self \<and> sz = 0 \<longrightarrow>
            resample draw g X y sz = Inr ([], [], g') \<and>
            fit train draw self X y cv (Some sz) g =
              (case train (estimator self) cv [] [] of
                 Inl e \<Rightarrow> (Some e, self', g')
               | Inr partial_estimator \<Rightarrow>
                   boot_loop train draw X y (nat (n_boot self) - 1)
                     (self'\<lparr>b_estimators := [partial_estimator]\<rparr>) g'))"
proof -
  have f: "fit train draw self X y cv (Some sz) g
             = boot_loop train draw X y (nat (n_boot self)) self' g"
    using t s by (simp add: fit_def Let_def)
  have a: "n_boot self < 1 \<longrightarrow> fit train draw self X y cv (Some sz) g = (None, self', g)"
    using f by simp
  have neg: "sz < 0 \<longrightarrow> resample draw g X y sz = Inl ValueError"
    by (simp add: resample_def np_random_choice_def)
  have zero: "sz = 0 \<longrightarrow> resample draw g X y sz = Inr ([], [], g')"
    using d by (simp add: resample_def np_random_choice_def take_rows_def)
  have bs: "boot_size self' = Some sz" "calibration_cv self' = Some cv"
    "estimator self' = estimator self" "b_estimators self' = []"
    using s by simp_all
  have unroll: "boot_loop train draw X y (nat (n_boot self)) self' g =
      (case resample draw g X y sz of
         Inl e \<Rightarrow> (Some e, self', g)
       | Inr (X_resampled, y_resampled, g2) \<Rightarrow>
           (case train (estimator self) cv X_resampled y_resampled of
              Inl e \<Rightarrow> (Some e, self', g2)
            | Inr partial_estimator \<Rightarrow>
                boot_loop train draw X y (nat (n_boot self) - 1)
                  (self'\<lparr>b_estimators := [partial_estimator]\<rparr>) g2))"
    if "1 \<le> n_boot self"
  proof -
    have "nat (n_boot self) = Suc (nat (n_boot self) - 1)" using that by simp
    then have "boot_loop train draw X y (nat (n_boot self)) self' g
          = boot_loop train draw X y (Suc (nat (n_boot self) - 1)) self' g"
      by (rule arg_cong)
    also have "\<dots> = (case resample draw g X y sz of
         Inl e \<Rightarrow> (Some e, self', g)
       | Inr (X_resampled, y_resampled, g2) \<Rightarrow>
           (case train (estimator self) cv X_resampled y_resampled of
              Inl e \<Rightarrow> (Some e, self', g2)
            | Inr partial_estimator \<Rightarrow>
                boot_loop train draw X y (nat (n_boot self) - 1)
                  (self'\<lparr>b_estimators := [partial_estimator]\<rparr>) g2))"
      unfolding boot_loop.simps by (simp add: bs split: sum.splits prod.splits)
    finally show ?thesis .
  qed
  have b: "1 \<le> n_boot self \<and> sz < 0 \<longrightarrow>
            fit train draw self X y cv (Some sz) g = (Some ValueError, self', g)"
  proof (intro impI, elim conjE)
    assume h: "1 \<le> n_boot self" "sz < 0"
    from neg h have r: "resample draw g X y sz = Inl ValueError" by simp
    show "fit train draw self X y cv (Some sz) g = (Some ValueError, self', g)"
      unfolding f unroll[OF h(1)] r by simp
  qed
  have c: "1 \<le> n_boot self \<and> sz = 0 \<longrightarrow>
            fit train draw self X y cv (Some sz) g =
              (case train (estimator self) cv [] [] of
                 Inl e \<Rightarrow> (Some e, self', g')
               | Inr partial_estimator \<Rightarrow>
                   boot_loop train draw X y (nat (n_boot self) - 1)
                     (self'\<lparr>b_estimators := [partial_estimator]\<rparr>) g')"
  proof (intro impI, elim conjE)
    assume h: "1 \<le> n_boot self" "sz = 0"
    from zero h have r: "resample draw g X y sz = Inr ([], [], g')" by simp
    show "fit train draw self X y cv (Some sz) g =
              (case train (estimator self) cv [] [] of
                 Inl e \<Rightarrow> (Some e, self', g')
               | Inr partial_estimator \<Rightarrow>
                   boot_loop train draw X y (nat (n_boot self) - 1)
                     (self'\<lparr>b_estimators := [partial_estimator]\<rparr>) g')"
      unfolding f unroll[OF h(1)] r by simp
  qed
  show ?thesis using a b c neg zero by blast
qed

text \<open>
  The claim as stated fails: with the size 0 the resampling step runs (the generator
  advances) and returns an empty sample, and the error comes from training on it; with
  \<open>n_boot = 0\<close> and the size \<open>-1\<close>, \<open>fit\<close> succeeds and stores \<open>-1\<close>.
\<close>

theorem fit_boot_size_unchecked_counterexample:
  "resample const_draw 0 example_X example_y 0 = Inr ([], [], 1) \<and>
   fst (fit prior_train const_draw (unfitted 1) example_X example_y () (Some 0) (0::nat))
     = Some TrainingError \<and>
   snd (snd (fit prior_train const_draw (unfitted 1) example_X example_y () (Some 0) (0::nat)))
     = 1 \<and>
   fst (fit prior_train const_draw (unfitted 0) example_X example_y () (Some (- 1)) (0::nat))
     = None \<and>
   boot_size (fst (snd (fit prior_train const_draw (unfitted 0) example_X example_y ()
                          (Some (- 1)) (0::nat))))
     = Some (- 1)"
  by (simp add: fit_def Let_def example_defs)

theorem fit_boot_size_unchecked_witness:
  "prior_train (estimator (unfitted 1)) () example_X example_y = Inr (\<lambda>r. 1 / 3) \<and>
   const_draw 0 (length example_X) 0 = ([], 1) \<and>
   resample const_draw 0 example_X example_y 0 = Inr ([], [], 1) \<and>
   fit prior_train const_draw (unfitted 1) example_X example_y () (Some 0) (0::nat) =
     (Some TrainingError,
      (unfitted 1)\<lparr>calibration_cv := Some (),
                    calibrated_estimator := Some (Fitted_Calibrated (\<lambda>r. 1 / 3)),
                    boot_size := Some 0, b_estimators := []\<rparr>,
      1)"
proof -
  have t: "prior_train (estimator (unfitted 1)) () example_X example_y = Inr (\<lambda>r. 1 / 3)"
    by (simp add: prior_train_def example_y_def)
  have d: "const_draw 0 (length example_X) 0 = ([], 1)" by (simp add: const_draw_def)
  have n: "1 \<le> n_boot (unfitted 1)" by (simp add: unfitted_def)
  have e: "prior_train (estimator (unfitted 1)) () [] [] = Inl TrainingError"
    by (simp add: prior_train_def)
  show ?thesis
    using t d n e
      fit_boot_size_unchecked[where train = prior_train and draw = const_draw
        and sz = 0 and g = "0::nat", OF t refl d]
    by simp
qed

end
